theory Spec2Isabelle
  imports Complex_Main
begin

section \<open>Parameter estimation harness of freckles (separation/sampling.py)\<close>

text \<open>
  The module wraps three external numerical primitives: the minimizer of
  \<^verbatim>\<open>scipy.optimize\<close>, the numerical derivatives of \<^verbatim>\<open>numdifftools\<close> and the ensemble
  sampler of \<^verbatim>\<open>emcee\<close>. None of them is code of the module; each is taken as a parameter
  of the function that calls it, and what a property needs of it is a hypothesis of the
  property. Numbers are real numbers: the rounding of \<^verbatim>\<open>float64\<close> is not modelled. The
  special values of IEEE arithmetic are modelled where the module itself introduces one
  (\<^verbatim>\<open>old_tau = np.inf\<close>). The \<^verbatim>\<open>verbose\<close> flag only prints and is left out.
\<close>

subsection \<open>Errors\<close>

datatype py_error = IndexError | ValueError | AttributeError

subsection \<open>run\_minimize\<close>

text \<open>
  The values \<^verbatim>\<open>res.x\<close> of the minimizer can take: \<open>Scalar\<close> is a Python or numpy
  scalar, \<open>ZeroDim\<close> a numpy array of dimension zero, which holds one number and has
  neither items nor a length, and \<open>Sequence\<close> an array of dimension one or a list, with
  its elements. \<^verbatim>\<open>isinstance(x, Iterable)\<close> asks whether the type of \<open>x\<close> has the method
  \<^verbatim>\<open>__iter__\<close>: a scalar has not, every numpy array has, also one of dimension zero.
\<close>

datatype res_value = Scalar (the_scalar: real) | ZeroDim real | Sequence "real list"

fun isinstance_Iterable :: "res_value \<Rightarrow> bool" where
  "isinstance_Iterable (Scalar v) = False"
| "isinstance_Iterable (ZeroDim v) = True"
| "isinstance_Iterable (Sequence xs) = True"

text \<open>\<^verbatim>\<open>len(x)\<close>, where \<open>x\<close> has a length.\<close>

fun sequence_length :: "res_value \<Rightarrow> nat option" where
  "sequence_length (Scalar v) = None"
| "sequence_length (ZeroDim v) = None"
| "sequence_length (Sequence xs) = Some (length xs)"

record optimize_result =
  res_x :: res_value
  res_success :: bool
  res_nfev :: nat

text \<open>
  \<^verbatim>\<open>minimize(fun, x0, method=, tol=, callback=, options=)\<close>: the objective, the start,
  the method name, the tolerance, the callback and the options.
\<close>

type_synonym ('cb, 'opt) minimizer =
  "(real list \<Rightarrow> real) \<Rightarrow> real list \<Rightarrow> string \<Rightarrow> real option \<Rightarrow> 'cb option \<Rightarrow> 'opt option
     \<Rightarrow> optimize_result"

definition mfunc :: "(real list \<Rightarrow> real) \<Rightarrow> real list \<Rightarrow> real" where
  "mfunc func params = - func params"

text \<open>\<^verbatim>\<open>params_ML\<close> is the list \<^verbatim>\<open>[res.x]\<close> or \<^verbatim>\<open>res.x\<close> as it is.\<close>

record minimize_output =
  params_ML :: res_value
  ML_success :: bool
  ML_nev :: nat

definition run_minimize ::
  "('cb, 'opt) minimizer \<Rightarrow> (real list \<Rightarrow> real) \<Rightarrow> real list \<Rightarrow> real option list option
     \<Rightarrow> string \<Rightarrow> real option \<Rightarrow> 'cb option \<Rightarrow> 'opt option \<Rightarrow> minimize_output" where
  "run_minimize minimize func pos0 dpos method tol callback options =
     (let res = minimize (mfunc func) pos0 method tol callback options;
          x = (if \<not> isinstance_Iterable (res_x res) then Sequence [the_scalar (res_x res)]
               else res_x res)
      in \<lparr>params_ML = x, ML_success = res_success res, ML_nev = res_nfev res\<rparr>)"

subsection \<open>run\_fisher\<close>

text \<open>
  \<^verbatim>\<open>nd.Gradient(f)(p)\<close> and \<^verbatim>\<open>nd.Hessian(f)(p)\<close> are parameters: a numerical gradient
  maps a function and a point to a vector, a numerical Hessian to a matrix. The point is
  either the start \<^verbatim>\<open>pos0\<close> or the minimizer's \<^verbatim>\<open>res.x\<close>.
\<close>

type_synonym gradient_op = "(real list \<Rightarrow> real) \<Rightarrow> res_value \<Rightarrow> real list"
type_synonym hessian_op = "(real list \<Rightarrow> real) \<Rightarrow> res_value \<Rightarrow> real list list"

record fisher_output =
  params_cent :: res_value
  fisher_m :: "real list list"
  fisher_v :: "real list"
  fisher_ML_success :: "bool option"

definition run_fisher ::
  "('cb, 'opt) minimizer \<Rightarrow> gradient_op \<Rightarrow> hessian_op \<Rightarrow> (real list \<Rightarrow> real) \<Rightarrow> real list
     \<Rightarrow> real option list option \<Rightarrow> bool \<Rightarrow> string \<Rightarrow> 'opt option \<Rightarrow> fisher_output" where
  "run_fisher minimize nd_Gradient nd_Hessian func pos0 dpos ml_first ml_method ml_options =
     (let (pcent, ml_success) =
            (if ml_first
             then (let res = minimize (mfunc func) pos0 ml_method None None ml_options
                   in (res_x res, Some (res_success res)))
             else (Sequence pos0, None));
          fisher_v = map uminus (nd_Gradient (mfunc func) pcent);
          fisher_m = nd_Hessian (mfunc func) pcent
      in \<lparr>params_cent = pcent, fisher_m = fisher_m, fisher_v = fisher_v,
          fisher_ML_success = ml_success\<rparr>)"

subsection \<open>run\_emcee: the initial displacement amplitudes\<close>

text \<open>
  \<^verbatim>\<open>dpos\<close> is \<^verbatim>\<open>None\<close> or a sequence whose entries are \<^verbatim>\<open>None\<close> or numbers. The loop
  \<^verbatim>\<open>for i, d in enumerate(dpos)\<close> stores into \<^verbatim>\<open>dp = np.zeros(ndim)\<close>; a store at an index
  that \<^verbatim>\<open>dp\<close> does not have raises \<^verbatim>\<open>IndexError\<close>.
\<close>

definition amplitude :: "real option \<Rightarrow> real" where
  "amplitude d = (case d of None \<Rightarrow> 1 / 100
                  | Some v \<Rightarrow> if v \<le> 0 then 1 / 100 else v * (1 / 10))"

fun dp_loop :: "nat \<Rightarrow> real option list \<Rightarrow> real list \<Rightarrow> py_error + real list" where
  "dp_loop i [] dp = Inr dp"
| "dp_loop i (d # ds) dp =
     (if i < length dp then dp_loop (Suc i) ds (dp[i := amplitude d]) else Inl IndexError)"

definition displacement :: "nat \<Rightarrow> real option list option \<Rightarrow> py_error + real list" where
  "displacement ndim dpos =
     (let dpos' = (case dpos of None \<Rightarrow> map (\<lambda>one. Some (1 / 100 * one)) (replicate ndim 1)
                   | Some ds \<Rightarrow> ds)
      in dp_loop 0 dpos' (replicate ndim 0))"

subsection \<open>run\_emcee: IEEE values of the autocorrelation times\<close>

text \<open>
  \<^verbatim>\<open>old_tau\<close> starts as \<^verbatim>\<open>np.inf\<close>, so the convergence test computes with infinities.
  \<open>Fin\<close> is a finite number (not rounded, and zero is taken as \<open>+0\<close>), \<open>PInf\<close> and \<open>NInf\<close>
  are the infinities, \<open>NaN\<close> is not-a-number. Division of arrays by zero does not raise in
  numpy; comparisons with \<open>NaN\<close> are false.
\<close>

datatype npfloat = Fin real | PInf | NInf | NaN

fun fneg :: "npfloat \<Rightarrow> npfloat" where
  "fneg (Fin a) = Fin (- a)"
| "fneg PInf = NInf"
| "fneg NInf = PInf"
| "fneg NaN = NaN"

fun fadd :: "npfloat \<Rightarrow> npfloat \<Rightarrow> npfloat" where
  "fadd NaN y = NaN"
| "fadd x NaN = NaN"
| "fadd (Fin a) (Fin b) = Fin (a + b)"
| "fadd (Fin a) y = y"
| "fadd x (Fin b) = x"
| "fadd PInf PInf = PInf"
| "fadd NInf NInf = NInf"
| "fadd PInf NInf = NaN"
| "fadd NInf PInf = NaN"

definition fsub :: "npfloat \<Rightarrow> npfloat \<Rightarrow> npfloat" where
  "fsub x y = fadd x (fneg y)"

fun fabs :: "npfloat \<Rightarrow> npfloat" where
  "fabs (Fin a) = Fin \<bar>a\<bar>"
| "fabs PInf = PInf"
| "fabs NInf = PInf"
| "fabs NaN = NaN"

fun fmul :: "npfloat \<Rightarrow> npfloat \<Rightarrow> npfloat" where
  "fmul NaN y = NaN"
| "fmul x NaN = NaN"
| "fmul (Fin a) (Fin b) = Fin (a * b)"
| "fmul (Fin a) PInf = (if a = 0 then NaN else if 0 < a then PInf else NInf)"
| "fmul (Fin a) NInf = (if a = 0 then NaN else if 0 < a then NInf else PInf)"
| "fmul PInf (Fin b) = (if b = 0 then NaN else if 0 < b then PInf else NInf)"
| "fmul NInf (Fin b) = (if b = 0 then NaN else if 0 < b then NInf else PInf)"
| "fmul PInf PInf = PInf"
| "fmul NInf NInf = PInf"
| "fmul PInf NInf = NInf"
| "fmul NInf PInf = NInf"

fun fdiv :: "npfloat \<Rightarrow> npfloat \<Rightarrow> npfloat" where
  "fdiv NaN y = NaN"
| "fdiv x NaN = NaN"
| "fdiv (Fin a) (Fin b) =
     (if b = 0 then (if a = 0 then NaN else if 0 < a then PInf else NInf) else Fin (a / b))"
| "fdiv (Fin a) y = Fin 0"
| "fdiv PInf (Fin b) = (if b < 0 then NInf else PInf)"
| "fdiv NInf (Fin b) = (if b < 0 then PInf else NInf)"
| "fdiv x y = NaN"

fun fless :: "npfloat \<Rightarrow> npfloat \<Rightarrow> bool" where
  "fless (Fin a) (Fin b) = (a < b)"
| "fless (Fin a) PInf = True"
| "fless NInf (Fin b) = True"
| "fless NInf PInf = True"
| "fless x y = False"

text \<open>\<^verbatim>\<open>np.mean\<close>: the sum over the count; of an empty array it is \<open>NaN\<close>.\<close>

definition np_mean :: "npfloat list \<Rightarrow> npfloat" where
  "np_mean xs = fdiv (foldl fadd (Fin 0) xs) (Fin (real (length xs)))"

subsection \<open>run\_emcee: the convergence test\<close>

text \<open>
  \<^verbatim>\<open>old_tau\<close> is the scalar \<^verbatim>\<open>np.inf\<close> before the first check and the array of the
  previous check afterwards; a scalar is broadcast over the array \<^verbatim>\<open>tau\<close>.
  \<^verbatim>\<open>get_autocorr_time\<close> returns one estimate per dimension, so two arrays have the same
  length.
\<close>

datatype old_tau_value = Scalar_tau npfloat | Array_tau "npfloat list"

fun tau_sub :: "old_tau_value \<Rightarrow> npfloat list \<Rightarrow> npfloat list" where
  "tau_sub (Scalar_tau a) tau = map (\<lambda>t. fsub a t) tau"
| "tau_sub (Array_tau old) tau = map2 fsub old tau"

definition converged :: "npfloat list \<Rightarrow> old_tau_value \<Rightarrow> real \<Rightarrow> real \<Rightarrow> nat \<Rightarrow> bool" where
  "converged tau old_tau conv_F conv_perc iteration =
     (list_all (\<lambda>t. fless (fmul t (Fin conv_F)) (Fin (real iteration))) tau \<and>
      list_all (\<lambda>r. fless r (Fin conv_perc)) (map2 fdiv (map fabs (tau_sub old_tau tau)) tau))"

subsection \<open>run\_emcee: the sampler and the sampling loop\<close>

text \<open>
  What the module uses of \<^verbatim>\<open>emcee.EnsembleSampler\<close>: the constructor, one pass of the
  generator \<^verbatim>\<open>sampler.sample(pos, iterations=nsamps)\<close>, the counter \<^verbatim>\<open>sampler.iteration\<close>,
  \<^verbatim>\<open>sampler.get_autocorr_time(tol=0)\<close> and \<^verbatim>\<open>sampler.chain\<close>, an array indexed by walker,
  iteration and dimension. \<^verbatim>\<open>sampler.chain\<close> is a property that emcee computes when it is
  read, and reading it can raise. \<open>'s\<close> is the state of the sampler object, \<open>'kw\<close> the
  keyword arguments passed through.
\<close>

record ('s, 'kw) emcee =
  EnsembleSampler :: "nat \<Rightarrow> nat \<Rightarrow> (real list \<Rightarrow> real) \<Rightarrow> 'kw \<Rightarrow> 's"
  sample_next :: "real list list \<Rightarrow> 's \<Rightarrow> 's"
  sampler_iteration :: "'s \<Rightarrow> nat"
  get_autocorr_time :: "'s \<Rightarrow> npfloat list"
  sampler_chain :: "'s \<Rightarrow> py_error + real list list list"

text \<open>
  The loop \<^verbatim>\<open>for _ in sampler.sample(pos, iterations=nsamps)\<close>: the first argument that
  decreases is the number of passes the generator has left. The result is the sampler and
  the trace \<^verbatim>\<open>autocorr\<close> when the loop is left, by \<^verbatim>\<open>break\<close> or by exhaustion.
\<close>

fun sample_loop ::
  "('s, 'kw) emcee \<Rightarrow> real list list \<Rightarrow> real \<Rightarrow> real \<Rightarrow> nat \<Rightarrow> 's \<Rightarrow> old_tau_value
     \<Rightarrow> (nat \<times> npfloat) list \<Rightarrow> 's \<times> (nat \<times> npfloat) list" where
  "sample_loop api pos conv_F conv_perc 0 sampler old_tau autocorr = (sampler, autocorr)"
| "sample_loop api pos conv_F conv_perc (Suc n) sampler old_tau autocorr =
     (let sampler' = sample_next api pos sampler in
      if sampler_iteration api sampler' mod 100 \<noteq> 0
      then sample_loop api pos conv_F conv_perc n sampler' old_tau autocorr
      else
        (let tau = get_autocorr_time api sampler';
             autocorr' = autocorr @ [(sampler_iteration api sampler', np_mean tau)]
         in if converged tau old_tau conv_F conv_perc (sampler_iteration api sampler')
            then (sampler', autocorr')
            else sample_loop api pos conv_F conv_perc n sampler' (Array_tau tau) autocorr'))"

subsection \<open>run\_emcee: burn-in and flattening\<close>

text \<open>
  \<^verbatim>\<open>xs[n:]\<close> with Python's rules: a negative \<open>n\<close> counts from the end, and the start is
  clamped to the length.
\<close>

definition slice_from :: "int \<Rightarrow> 'a list \<Rightarrow> 'a list" where
  "slice_from n xs =
     (let len = int (length xs);
          start = (if n < 0 then max (len + n) 0 else min n len)
      in drop (nat start) xs)"

record ndarray2 =
  nrows :: nat
  ncols :: nat
  rows :: "real list list"

text \<open>
  \<^verbatim>\<open>a.reshape((-1, ndim))\<close> on the elements of \<open>a\<close> in row-major order: the number of rows
  is inferred, which fails with \<^verbatim>\<open>ValueError\<close> when \<open>ndim\<close> is zero or does not divide the
  size.
\<close>

definition reshape_rows :: "real list \<Rightarrow> nat \<Rightarrow> py_error + ndarray2" where
  "reshape_rows flat ndim =
     (if ndim = 0 \<or> length flat mod ndim \<noteq> 0 then Inl ValueError
      else Inr \<lparr>nrows = length flat div ndim, ncols = ndim,
                rows = map (\<lambda>r. take ndim (drop (r * ndim) flat)) [0..<length flat div ndim]\<rparr>)"

definition burn_and_flatten :: "real list list list \<Rightarrow> int \<Rightarrow> nat \<Rightarrow> py_error + ndarray2" where
  "burn_and_flatten chain nburn ndim =
     reshape_rows (concat (concat (map (slice_from nburn) chain))) ndim"

subsection \<open>run\_emcee\<close>

record emcee_output =
  chains :: ndarray2
  autocorr :: "(nat \<times> npfloat) list"

text \<open>
  \<open>randn i\<close> is the draw \<^verbatim>\<open>np.random.randn(ndim)\<close> made for walker \<open>i\<close>: the global random
  generator is an explicit argument.
\<close>

definition walkers :: "real list \<Rightarrow> real list \<Rightarrow> nat \<Rightarrow> (nat \<Rightarrow> real list) \<Rightarrow> real list list" where
  "walkers pos0 dp nwalkers randn =
     map (\<lambda>i. map2 (+) pos0 (map2 (*) dp (randn i))) [0..<nwalkers]"

definition sampled ::
  "('s, 'kw) emcee \<Rightarrow> 'kw \<Rightarrow> (real list \<Rightarrow> real) \<Rightarrow> real list \<Rightarrow> real list \<Rightarrow> nat \<Rightarrow> nat
     \<Rightarrow> real \<Rightarrow> real \<Rightarrow> (nat \<Rightarrow> real list) \<Rightarrow> 's \<times> (nat \<times> npfloat) list" where
  "sampled api kwargs func pos0 dp nwalkers nsamps conv_F conv_perc randn =
     (let ndim = length pos0;
          pos = walkers pos0 dp nwalkers randn;
          sampler = EnsembleSampler api nwalkers ndim func kwargs
      in sample_loop api pos conv_F conv_perc nsamps sampler (Scalar_tau PInf) [])"

definition run_emcee ::
  "('s, 'kw) emcee \<Rightarrow> 'kw \<Rightarrow> (real list \<Rightarrow> real) \<Rightarrow> real list \<Rightarrow> real option list option
     \<Rightarrow> nat \<Rightarrow> nat \<Rightarrow> int \<Rightarrow> real \<Rightarrow> real \<Rightarrow> (nat \<Rightarrow> real list) \<Rightarrow> py_error + emcee_output" where
  "run_emcee api kwargs func pos0 dpos nwalkers nsamps nburn conv_F conv_perc randn =
     (let ndim = length pos0 in
      case displacement ndim dpos of
        Inl e \<Rightarrow> Inl e
      | Inr dp \<Rightarrow>
          (let (sampler, autocorr) =
                 sampled api kwargs func pos0 dp nwalkers nsamps conv_F conv_perc randn
           in case sampler_chain api sampler of
                Inl e \<Rightarrow> Inl e
              | Inr chain \<Rightarrow>
                  (case burn_and_flatten chain nburn ndim of
                     Inl e \<Rightarrow> Inl e
                   | Inr samples \<Rightarrow> Inr \<lparr>chains = samples, autocorr = autocorr\<rparr>)))"

subsection \<open>The passes of the generator\<close>

text \<open>
  The sampler does not depend on what the loop observes, so the sampler after \<open>i\<close>
  passes of the generator is a function of \<open>i\<close>, and with it the estimate \<^verbatim>\<open>tau\<close> that a
  check after \<open>i\<close> passes computes.
\<close>

definition after_passes :: "('s, 'kw) emcee \<Rightarrow> real list list \<Rightarrow> 's \<Rightarrow> nat \<Rightarrow> 's" where
  "after_passes api pos s0 i = (sample_next api pos ^^ i) s0"

definition tau_at :: "('s, 'kw) emcee \<Rightarrow> real list list \<Rightarrow> 's \<Rightarrow> nat \<Rightarrow> npfloat list" where
  "tau_at api pos s0 i = get_autocorr_time api (after_passes api pos s0 i)"

subsection \<open>What the properties need of emcee\<close>

text \<open>
  \<^verbatim>\<open>sampler.iteration\<close> counts the passes of the generator, from zero for a fresh
  sampler; the autocorrelation estimate has one entry per dimension; the chain is a
  rectangular array. emcee refuses to give the chain of a sampler that has stored no
  iteration: reading \<^verbatim>\<open>sampler.chain\<close> then raises \<^verbatim>\<open>AttributeError\<close>. After at least one
  iteration the chain has one entry per walker, iteration and dimension.
\<close>

definition counts_passes :: "('s, 'kw) emcee \<Rightarrow> real list list \<Rightarrow> 's \<Rightarrow> bool" where
  "counts_passes api pos s0 \<longleftrightarrow>
     (\<forall>i. sampler_iteration api (after_passes api pos s0 i) = i)"

definition tau_per_dimension :: "('s, 'kw) emcee \<Rightarrow> real list list \<Rightarrow> 's \<Rightarrow> nat \<Rightarrow> bool" where
  "tau_per_dimension api pos s0 ndim \<longleftrightarrow> (\<forall>i. length (tau_at api pos s0 i) = ndim)"

definition has_shape :: "real list list list \<Rightarrow> nat \<Rightarrow> nat \<Rightarrow> nat \<Rightarrow> bool" where
  "has_shape chain w k d \<longleftrightarrow>
     length chain = w \<and> (\<forall>h \<in> set chain. length h = k \<and> (\<forall>p \<in> set h. length p = d))"

definition stores_chain :: "('s, 'kw) emcee \<Rightarrow> 's \<Rightarrow> nat \<Rightarrow> nat \<Rightarrow> bool" where
  "stores_chain api s w d \<longleftrightarrow>
     (case sampler_chain api s of
        Inl e \<Rightarrow> sampler_iteration api s = 0 \<and> e = AttributeError
      | Inr chain \<Rightarrow> 0 < sampler_iteration api s \<and> has_shape chain w (sampler_iteration api s) d)"

subsection \<open>The loop as a function of the number of passes\<close>

text \<open>
  \<open>baseline i\<close> is the value of \<^verbatim>\<open>old_tau\<close> after \<open>i\<close> passes without a \<^verbatim>\<open>break\<close>:
  \<^verbatim>\<open>np.inf\<close> before the first check, and the estimate of the last check afterwards.
  \<open>check_converged j\<close> is the test made after pass \<open>j\<close>, and \<open>check_record j\<close> what the
  check appends to \<^verbatim>\<open>autocorr\<close>.
\<close>

definition baseline :: "('s, 'kw) emcee \<Rightarrow> real list list \<Rightarrow> 's \<Rightarrow> nat \<Rightarrow> old_tau_value" where
  "baseline api pos s0 i =
     (if i < 100 then Scalar_tau PInf else Array_tau (tau_at api pos s0 (i - i mod 100)))"

definition check_converged ::
  "('s, 'kw) emcee \<Rightarrow> real list list \<Rightarrow> 's \<Rightarrow> real \<Rightarrow> real \<Rightarrow> nat \<Rightarrow> bool" where
  "check_converged api pos s0 conv_F conv_perc j =
     converged (tau_at api pos s0 j) (baseline api pos s0 (j - 1)) conv_F conv_perc j"

definition check_record ::
  "('s, 'kw) emcee \<Rightarrow> real list list \<Rightarrow> 's \<Rightarrow> nat \<Rightarrow> nat \<times> npfloat" where
  "check_record api pos s0 j = (j, np_mean (tau_at api pos s0 j))"

text \<open>
  \<open>stops_at n i\<close> is the number of passes made when the loop is left, for a loop that
  has made \<open>i\<close> passes and has \<open>n\<close> left: the first pass that is a multiple of 100 and
  whose test succeeds, or \<open>i + n\<close> when there is none.
\<close>

fun stops_at ::
  "('s, 'kw) emcee \<Rightarrow> real list list \<Rightarrow> 's \<Rightarrow> real \<Rightarrow> real \<Rightarrow> nat \<Rightarrow> nat \<Rightarrow> nat" where
  "stops_at api pos s0 conv_F conv_perc 0 i = i"
| "stops_at api pos s0 conv_F conv_perc (Suc n) i =
     (if Suc i mod 100 = 0 \<and> check_converged api pos s0 conv_F conv_perc (Suc i) then Suc i
      else stops_at api pos s0 conv_F conv_perc n (Suc i))"

section \<open>Concrete instances\<close>

text \<open>
  Small instances of the external primitives, on which the functions above are evaluated:
  a minimizer that returns a scalar, one that returns an array of dimension zero, and a
  numerical gradient and Hessian by central differences of step one.
\<close>

definition scalar_minimizer :: "(unit, unit) minimizer" where
  "scalar_minimizer f x0 method tol callback options =
     \<lparr>res_x = Scalar 3, res_success = True, res_nfev = 7\<rparr>"

definition zero_dim_minimizer :: "(unit, unit) minimizer" where
  "zero_dim_minimizer f x0 method tol callback options =
     \<lparr>res_x = ZeroDim 1, res_success = True, res_nfev = 7\<rparr>"

definition shift :: "real list \<Rightarrow> nat \<Rightarrow> real \<Rightarrow> real list" where
  "shift xs i h = xs[i := xs ! i + h]"

definition point_of :: "res_value \<Rightarrow> real list" where
  "point_of p = (case p of Scalar v \<Rightarrow> [v] | ZeroDim v \<Rightarrow> [v] | Sequence xs \<Rightarrow> xs)"

definition central_gradient :: gradient_op where
  "central_gradient f p =
     (let xs = point_of p
      in map (\<lambda>i. (f (shift xs i 1) - f (shift xs i (- 1))) / 2) [0..<length xs])"

definition central_hessian :: hessian_op where
  "central_hessian f p =
     (let xs = point_of p
      in map (\<lambda>i. map (\<lambda>j.
           (f (shift (shift xs i 1) j 1) - f (shift (shift xs i 1) j (- 1))
            - f (shift (shift xs i (- 1)) j 1) + f (shift (shift xs i (- 1)) j (- 1))) / 4)
           [0..<length xs]) [0..<length xs])"

definition parabola :: "real list \<Rightarrow> real" where
  "parabola p = - (p ! 0 - 1)\<^sup>2"

text \<open>
  A sampler that only counts: its state is the number of walkers, the number of
  dimensions, the passes made and a fixed autocorrelation estimate, given as its keyword
  argument. After \<open>j\<close> passes every walker stands at \<open>(j, ..., j)\<close>. As with emcee, its
  chain cannot be read before the first pass.
\<close>

record counting_sampler =
  cs_walkers :: nat
  cs_ndim :: nat
  cs_passes :: nat
  cs_tau :: npfloat

definition counting_emcee :: "(counting_sampler, npfloat) emcee" where
  "counting_emcee =
     \<lparr>EnsembleSampler = (\<lambda>nwalkers ndim func kwargs.
          \<lparr>cs_walkers = nwalkers, cs_ndim = ndim, cs_passes = 0, cs_tau = kwargs\<rparr>),
      sample_next = (\<lambda>pos s. s\<lparr>cs_passes := Suc (cs_passes s)\<rparr>),
      sampler_iteration = cs_passes,
      get_autocorr_time = (\<lambda>s. replicate (cs_ndim s) (cs_tau s)),
      sampler_chain = (\<lambda>s. if cs_passes s = 0 then Inl AttributeError
          else Inr (replicate (cs_walkers s)
            (map (\<lambda>j. replicate (cs_ndim s) (real j)) [1..<Suc (cs_passes s)])))\<rparr>"

definition fresh_counting :: "nat \<Rightarrow> nat \<Rightarrow> npfloat \<Rightarrow> counting_sampler" where
  "fresh_counting nwalkers ndim tau =
     \<lparr>cs_walkers = nwalkers, cs_ndim = ndim, cs_passes = 0, cs_tau = tau\<rparr>"

section \<open>Properties\<close>

subsection \<open>The displacement amplitudes\<close>

lemma dp_loop_eq:
  "i \<le> length dp \<Longrightarrow>
   dp_loop i ds dp =
     (if i + length ds \<le> length dp
      then Inr (take i dp @ map amplitude ds @ drop (i + length ds) dp)
      else Inl IndexError)"
proof (induction ds arbitrary: i dp)
  case Nil
  then show ?case by simp
next
  case (Cons d ds)
  show ?case
  proof (cases "i < length dp")
    case True
    then have "dp_loop i (d # ds) dp = dp_loop (Suc i) ds (dp[i := amplitude d])"
      by simp
    also have "\<dots> = (if Suc i + length ds \<le> length dp
        then Inr (take (Suc i) (dp[i := amplitude d]) @ map amplitude ds
                  @ drop (Suc i + length ds) (dp[i := amplitude d]))
        else Inl IndexError)"
      using True Cons.IH [of "Suc i" "dp[i := amplitude d]"] by simp
    also have "\<dots> = (if i + length (d # ds) \<le> length dp
        then Inr (take i dp @ map amplitude (d # ds) @ drop (i + length (d # ds)) dp)
        else Inl IndexError)"
      using True by (simp add: take_Suc_conv_app_nth)
    finally show ?thesis .
  next
    case False
    with Cons.prems show ?thesis by simp
  qed
qed

lemma displacement_Some:
  "displacement ndim (Some ds) =
     (if length ds \<le> ndim then Inr (map amplitude ds @ replicate (ndim - length ds) 0)
      else Inl IndexError)"
  by (simp add: displacement_def dp_loop_eq)

lemma amplitude_default: "amplitude (Some (1 / 100)) = 1 / 1000"
  by (simp add: amplitude_def)

lemma displacement_None: "displacement ndim None = Inr (replicate ndim (1 / 1000))"
  by (simp add: displacement_def dp_loop_eq amplitude_default comp_def map_replicate_const)

text \<open>
  C1, as stated, fails when \<^verbatim>\<open>dpos\<close> is \<^verbatim>\<open>None\<close>: the hints are then replaced by
  \<^verbatim>\<open>1e-2 * np.ones(ndim)\<close> and go through the same loop, where \<open>0.01\<close> is a positive hint
  and is scaled by \<open>0.1\<close>. With one parameter the amplitude is \<open>0.001\<close>, not \<open>0.01\<close>.
\<close>

theorem displacement_absent_hints_counterexample:
  "displacement 1 None = Inr [1 / 1000] \<and> displacement 1 None \<noteq> Inr [1 / 100]"
  by (simp add: displacement_None)

text \<open>
  C1 (amended): with a sequence of hints no longer than \<open>ndim\<close>, entry \<open>i\<close> of \<open>dp\<close> is
  \<open>0.01\<close> when hint \<open>i\<close> is \<^verbatim>\<open>None\<close> or not positive, and the hint times \<open>0.1\<close>
  otherwise; with no hints at all every entry of \<open>dp\<close> is \<open>0.01 * 0.1 = 0.001\<close>.
\<close>

theorem displacement_amplitudes:
  "(length ds \<le> ndim \<and> i < length ds \<longrightarrow>
      (\<exists>dp. displacement ndim (Some ds) = Inr dp \<and> length dp = ndim \<and>
         dp ! i = (case ds ! i of None \<Rightarrow> 1 / 100
                   | Some d \<Rightarrow> if d \<le> 0 then 1 / 100 else d * (1 / 10)))) \<and>
   (i < ndim \<longrightarrow>
      (\<exists>dp. displacement ndim None = Inr dp \<and> length dp = ndim \<and>
         dp ! i = 1 / 100 * (1 / 10)))"
  by (simp add: displacement_Some displacement_None nth_append amplitude_def)

theorem displacement_amplitudes_witness:
  "length [Some 2, None, Some (- 1 :: real)] \<le> 3 \<and> (0 :: nat) < 3 \<and>
   (\<exists>dp. displacement 3 (Some [Some 2, None, Some (- 1)]) = Inr dp \<and> length dp = 3 \<and>
      dp ! 0 = 2 * (1 / 10)) \<and>
   (\<exists>dp. displacement 3 None = Inr dp \<and> length dp = 3 \<and> dp ! 0 = 1 / 1000)"
  using displacement_amplitudes [of "[Some 2, None, Some (- 1)]" 3 0] by simp

subsection \<open>Hints of another length than the parameters\<close>

text \<open>
  C2, as stated, fails: with two parameters and one hint nothing is raised while the
  amplitudes are derived, and the missing amplitude is left at the zero of
  \<^verbatim>\<open>np.zeros(ndim)\<close>.
\<close>

theorem mismatched_hints_counterexample:
  "length [0, 0 :: real] \<noteq> length [Some (1 :: real)] \<and>
   displacement (length [0, 0 :: real]) (Some [Some 1]) = Inr [1 / 10, 0]"
  by (simp add: displacement_Some amplitude_def)

text \<open>
  C2 (amended): the module never compares the two lengths. Deriving the amplitudes
  raises exactly when there are more hints than parameters, and then it is the
  \<^verbatim>\<open>IndexError\<close> of the store \<^verbatim>\<open>dp[i] = ...\<close>; with fewer hints than parameters nothing is
  raised there and the amplitudes beyond the hints stay zero. \<^verbatim>\<open>run_minimize\<close> and
  \<^verbatim>\<open>run_fisher\<close> never read the hints: their result is the one without hints.
\<close>

theorem mismatched_hints:
  "(isl (displacement (length pos0) (Some ds)) \<longleftrightarrow> length pos0 < length ds) \<and>
   (length pos0 < length ds \<longrightarrow> displacement (length pos0) (Some ds) = Inl IndexError) \<and>
   (length ds < length pos0 \<longrightarrow>
      (\<exists>dp. displacement (length pos0) (Some ds) = Inr dp \<and> length dp = length pos0 \<and>
         (\<forall>i. length ds \<le> i \<and> i < length pos0 \<longrightarrow> dp ! i = 0))) \<and>
   run_minimize minimize func pos0 (Some ds) method tol callback options =
     run_minimize minimize func pos0 None method tol callback options \<and>
   run_fisher minimize nd_Gradient nd_Hessian func pos0 (Some ds) ml_first method options =
     run_fisher minimize nd_Gradient nd_Hessian func pos0 None ml_first method options"
  by (auto simp: displacement_Some nth_append run_minimize_def run_fisher_def)

theorem mismatched_hints_witness:
  "length [Some (1 :: real)] < length [0, 0 :: real] \<and>
   \<not> isl (displacement 2 (Some [Some 1])) \<and>
   (\<exists>dp. displacement 2 (Some [Some 1]) = Inr dp \<and> length dp = 2 \<and> dp ! 1 = 0) \<and>
   length [0 :: real] < length [Some (1 :: real), None] \<and>
   displacement 1 (Some [Some 1, None]) = Inl IndexError"
proof -
  note short = mismatched_hints [of "[0, 0]" "[Some 1]"]
  note long = mismatched_hints [of "[0]" "[Some 1, None]"]
  have a: "\<not> isl (displacement 2 (Some [Some 1]))"
    using short [THEN conjunct1] by (simp add: numeral_2_eq_2)
  have "\<exists>dp. displacement (length [0, 0 :: real]) (Some [Some 1]) = Inr dp \<and>
          length dp = length [0, 0 :: real] \<and>
          (\<forall>i. length [Some (1 :: real)] \<le> i \<and> i < length [0, 0 :: real] \<longrightarrow> dp ! i = 0)"
    using short [THEN conjunct2, THEN conjunct2, THEN conjunct1] by simp
  then have "\<exists>dp. displacement 2 (Some [Some 1]) = Inr dp \<and> length dp = 2 \<and>
          (\<forall>i. 1 \<le> i \<and> i < 2 \<longrightarrow> dp ! i = 0)"
    by (simp add: numeral_2_eq_2)
  then obtain dp where dp: "displacement 2 (Some [Some 1]) = Inr dp" "length dp = 2"
    "\<forall>i. 1 \<le> i \<and> i < 2 \<longrightarrow> dp ! i = 0"
    by auto
  from dp(3) have "dp ! 1 = 0" by simp
  with dp have b: "\<exists>dp. displacement 2 (Some [Some 1]) = Inr dp \<and> length dp = 2 \<and> dp ! 1 = 0"
    by blast
  have c: "displacement 1 (Some [Some 1, None]) = Inl IndexError"
    using long [THEN conjunct2, THEN conjunct1] by simp
  from a b c show ?thesis by simp
qed

subsection \<open>run\_minimize\<close>

lemma run_minimize_params:
  "params_ML (run_minimize minimize func pos0 dpos meth tol callback options) =
     (case res_x (minimize (mfunc func) pos0 meth tol callback options) of
        Scalar v \<Rightarrow> Sequence [v]
      | ZeroDim v \<Rightarrow> ZeroDim v
      | Sequence xs \<Rightarrow> Sequence xs)"
  by (simp add: run_minimize_def Let_def split: res_value.splits)

text \<open>
  C3: \<^verbatim>\<open>params_ML\<close> should be a sequence of length \<open>ndim\<close>, a scalar result for one
  parameter being wrapped into a list of one element. The test \<^verbatim>\<open>isinstance(res.x,
  Iterable)\<close> wraps a scalar that is not an \<^verbatim>\<open>Iterable\<close>, but an array of dimension zero
  is an \<^verbatim>\<open>Iterable\<close>: for one parameter and a minimizer that returns such an array,
  \<^verbatim>\<open>params_ML\<close> is the array itself, which has no length, and not a sequence of length
  one.
\<close>

theorem run_minimize_zero_dim_unwrapped:
  "length [0 :: real] = 1 \<and>
   params_ML (run_minimize zero_dim_minimizer parabola [0] None ''Powell'' None None None)
     = ZeroDim 1 \<and>
   sequence_length
     (params_ML (run_minimize zero_dim_minimizer parabola [0] None ''Powell'' None None None))
     = None \<and>
   sequence_length
     (params_ML (run_minimize zero_dim_minimizer parabola [0] None ''Powell'' None None None))
     \<noteq> Some (length [0 :: real])"
  by (simp add: run_minimize_params zero_dim_minimizer_def)

subsection \<open>run\_fisher\<close>

text \<open>
  C7: with \<^verbatim>\<open>ml_first=False\<close> the centre is \<^verbatim>\<open>pos0\<close> itself and \<^verbatim>\<open>ML_success\<close> is
  \<^verbatim>\<open>None\<close>; with \<^verbatim>\<open>ml_first=True\<close> the centre is the minimizer's \<^verbatim>\<open>res.x\<close> and
  \<^verbatim>\<open>ML_success\<close> its \<^verbatim>\<open>res.success\<close>, for the negated likelihood started at \<^verbatim>\<open>pos0\<close>.
\<close>

theorem run_fisher_center:
  "params_cent (run_fisher minimize nd_Gradient nd_Hessian func pos0 dpos False
      ml_method ml_options) = Sequence pos0 \<and>
   fisher_ML_success (run_fisher minimize nd_Gradient nd_Hessian func pos0 dpos False
      ml_method ml_options) = None \<and>
   params_cent (run_fisher minimize nd_Gradient nd_Hessian func pos0 dpos True
      ml_method ml_options) = res_x (minimize (mfunc func) pos0 ml_method None None ml_options) \<and>
   fisher_ML_success (run_fisher minimize nd_Gradient nd_Hessian func pos0 dpos True
      ml_method ml_options) =
     Some (res_success (minimize (mfunc func) pos0 ml_method None None ml_options))"
  by (simp add: run_fisher_def Let_def)

text \<open>
  C8: \<^verbatim>\<open>fisher_v\<close> is the negated numerical gradient of the negated likelihood at the
  centre, and \<^verbatim>\<open>fisher_m\<close> the numerical Hessian of the negated likelihood at the same
  centre. When negating the function negates its numerical gradient at the centre, as it
  does for every difference scheme, \<^verbatim>\<open>fisher_v\<close> is the numerical gradient of the
  likelihood itself.
\<close>

theorem run_fisher_gradient_hessian:
  assumes "r = run_fisher minimize nd_Gradient nd_Hessian func pos0 dpos ml_first
                 ml_method ml_options"
    and "nd_Gradient (mfunc func) (params_cent r) = map uminus (nd_Gradient func (params_cent r))"
  shows "fisher_v r = map uminus (nd_Gradient (mfunc func) (params_cent r)) \<and>
         fisher_v r = nd_Gradient func (params_cent r) \<and>
         fisher_m r = nd_Hessian (mfunc func) (params_cent r)"
proof -
  have v: "fisher_v r = map uminus (nd_Gradient (mfunc func) (params_cent r))"
    and m: "fisher_m r = nd_Hessian (mfunc func) (params_cent r)"
    unfolding assms(1) by (simp_all add: run_fisher_def Let_def split: if_splits)
  have "map uminus (map uminus (nd_Gradient func (params_cent r))) = nd_Gradient func (params_cent r)"
    by (simp add: comp_def)
  with v m assms(2) show ?thesis by simp
qed

lemma central_gradient_parabola:
  "central_gradient parabola (Sequence [0]) = [2] \<and>
   central_gradient (mfunc parabola) (Sequence [0]) = [- 2]"
  by (simp add: central_gradient_def point_of_def shift_def parabola_def mfunc_def)

lemma central_hessian_parabola: "central_hessian (mfunc parabola) (Sequence [0]) = [[2]]"
  by (simp add: central_hessian_def point_of_def shift_def parabola_def mfunc_def)

theorem run_fisher_gradient_hessian_witness:
  "fisher_v (run_fisher scalar_minimizer central_gradient central_hessian parabola [0] None
      False ''Powell'' None) = [2] \<and>
   central_gradient parabola (Sequence [0]) = [2] \<and>
   fisher_m (run_fisher scalar_minimizer central_gradient central_hessian parabola [0] None
      False ''Powell'' None) = [[2]]"
proof -
  let ?r = "run_fisher scalar_minimizer central_gradient central_hessian parabola [0] None
      False ''Powell'' None"
  have c: "params_cent ?r = Sequence [0]"
    by (simp add: run_fisher_def)
  have odd: "central_gradient (mfunc parabola) (params_cent ?r)
      = map uminus (central_gradient parabola (params_cent ?r))"
    unfolding c by (simp add: central_gradient_parabola)
  have r: "?r = run_fisher scalar_minimizer central_gradient central_hessian parabola [0] None
      False ''Powell'' None"
    by (rule refl)
  from run_fisher_gradient_hessian [where r = ?r and nd_Gradient = central_gradient
      and nd_Hessian = central_hessian and func = parabola, OF r odd] c
  show ?thesis
    by (simp add: central_gradient_parabola central_hessian_parabola)
qed

subsection \<open>The sampling loop\<close>

lemma Suc_mod_skip:
  assumes "Suc i mod m \<noteq> 0"
  shows "Suc i mod m = Suc (i mod m)" and "Suc i - Suc i mod m = i - i mod m"
proof -
  show a: "Suc i mod m = Suc (i mod m)"
    using assms by (simp add: mod_Suc split: if_splits)
  show "Suc i - Suc i mod m = i - i mod m"
    unfolding a by simp
qed

lemma baseline_skip:
  assumes "Suc i mod 100 \<noteq> 0"
  shows "baseline api pos s0 (Suc i) = baseline api pos s0 i"
proof -
  have a: "Suc i - Suc i mod 100 = i - i mod 100"
    using assms by (rule Suc_mod_skip(2))
  have "Suc i \<noteq> 100" using assms by auto
  then have b: "Suc i < 100 \<longleftrightarrow> i < 100" by arith
  show ?thesis unfolding baseline_def a b ..
qed

lemma baseline_check:
  assumes "Suc i mod 100 = 0"
  shows "baseline api pos s0 (Suc i) = Array_tau (tau_at api pos s0 (Suc i))"
proof -
  have "\<not> Suc i < 100"
  proof
    assume "Suc i < 100"
    then have "Suc i mod 100 = Suc i" by (rule mod_less)
    with assms show False by simp
  qed
  then show ?thesis unfolding baseline_def using assms by simp
qed

lemma checks_from_skip:
  assumes "Suc i mod 100 \<noteq> 0" and "Suc i \<le> k"
  shows "[j \<leftarrow> [Suc i..<Suc k]. j mod 100 = 0] = [j \<leftarrow> [Suc (Suc i)..<Suc k]. j mod 100 = 0]"
proof -
  have "[Suc i..<Suc k] = Suc i # [Suc (Suc i)..<Suc k]"
    using assms(2) by (simp add: upt_conv_Cons)
  then show ?thesis using assms(1) by simp
qed

lemma checks_from_check:
  assumes "Suc i mod 100 = 0" and "Suc i \<le> k"
  shows "[j \<leftarrow> [Suc i..<Suc k]. j mod 100 = 0]
           = Suc i # [j \<leftarrow> [Suc (Suc i)..<Suc k]. j mod 100 = 0]"
proof -
  have "[Suc i..<Suc k] = Suc i # [Suc (Suc i)..<Suc k]"
    using assms(2) by (simp add: upt_conv_Cons)
  then show ?thesis using assms(1) by simp
qed

lemma iteration_after_passes:
  "counts_passes api pos s0 \<Longrightarrow> sampler_iteration api (after_passes api pos s0 i) = i"
  by (simp add: counts_passes_def)

lemma after_passes_Suc:
  "sample_next api pos (after_passes api pos s0 i) = after_passes api pos s0 (Suc i)"
  by (simp add: after_passes_def)

lemma sample_loop_skip:
  assumes "sampler_iteration api (sample_next api pos s) mod 100 \<noteq> 0"
  shows "sample_loop api pos conv_F conv_perc (Suc n) s old ac
           = sample_loop api pos conv_F conv_perc n (sample_next api pos s) old ac"
  using assms by (simp add: Let_def)

lemma sample_loop_break:
  assumes "sampler_iteration api (sample_next api pos s) mod 100 = 0"
    and "converged (get_autocorr_time api (sample_next api pos s)) old conv_F conv_perc
           (sampler_iteration api (sample_next api pos s))"
  shows "sample_loop api pos conv_F conv_perc (Suc n) s old ac
           = (sample_next api pos s,
              ac @ [(sampler_iteration api (sample_next api pos s),
                     np_mean (get_autocorr_time api (sample_next api pos s)))])"
  using assms by (simp add: Let_def)

lemma sample_loop_continue:
  assumes "sampler_iteration api (sample_next api pos s) mod 100 = 0"
    and "\<not> converged (get_autocorr_time api (sample_next api pos s)) old conv_F conv_perc
           (sampler_iteration api (sample_next api pos s))"
  shows "sample_loop api pos conv_F conv_perc (Suc n) s old ac
           = sample_loop api pos conv_F conv_perc n (sample_next api pos s)
               (Array_tau (get_autocorr_time api (sample_next api pos s)))
               (ac @ [(sampler_iteration api (sample_next api pos s),
                       np_mean (get_autocorr_time api (sample_next api pos s)))])"
  using assms by (simp add: Let_def)

lemma loop_step_skip:
  assumes cp: "counts_passes api pos s0" and m: "Suc i mod 100 \<noteq> 0"
  shows "sample_loop api pos conv_F conv_perc (Suc n) (after_passes api pos s0 i)
            (baseline api pos s0 i) ac
         = sample_loop api pos conv_F conv_perc n (after_passes api pos s0 (Suc i))
            (baseline api pos s0 (Suc i)) ac"
proof -
  let ?s = "after_passes api pos s0 i"
  have nxt: "sample_next api pos ?s = after_passes api pos s0 (Suc i)"
    by (rule after_passes_Suc)
  have it: "sampler_iteration api (after_passes api pos s0 (Suc i)) = Suc i"
    using cp by (rule iteration_after_passes)
  have "sampler_iteration api (sample_next api pos ?s) mod 100 \<noteq> 0"
    unfolding nxt it by (rule m)
  then have "sample_loop api pos conv_F conv_perc (Suc n) ?s (baseline api pos s0 i) ac
      = sample_loop api pos conv_F conv_perc n (sample_next api pos ?s) (baseline api pos s0 i) ac"
    by (rule sample_loop_skip)
  then show ?thesis
    unfolding nxt baseline_skip [OF m] .
qed

lemma loop_step_check:
  assumes cp: "counts_passes api pos s0" and m: "Suc i mod 100 = 0"
  shows "sample_loop api pos conv_F conv_perc (Suc n) (after_passes api pos s0 i)
            (baseline api pos s0 i) ac
         = (if check_converged api pos s0 conv_F conv_perc (Suc i)
            then (after_passes api pos s0 (Suc i), ac @ [check_record api pos s0 (Suc i)])
            else sample_loop api pos conv_F conv_perc n (after_passes api pos s0 (Suc i))
                   (baseline api pos s0 (Suc i)) (ac @ [check_record api pos s0 (Suc i)]))"
proof -
  let ?s = "after_passes api pos s0 i"
  let ?s' = "after_passes api pos s0 (Suc i)"
  have nxt: "sample_next api pos ?s = ?s'"
    by (rule after_passes_Suc)
  have it: "sampler_iteration api ?s' = Suc i"
    using cp by (rule iteration_after_passes)
  have tau: "get_autocorr_time api ?s' = tau_at api pos s0 (Suc i)"
    unfolding tau_at_def ..
  have d: "Suc i - 1 = i" by simp
  have cc: "converged (tau_at api pos s0 (Suc i)) (baseline api pos s0 i) conv_F conv_perc (Suc i)
      = check_converged api pos s0 conv_F conv_perc (Suc i)"
    unfolding check_converged_def d ..
  have rec: "(Suc i, np_mean (tau_at api pos s0 (Suc i))) = check_record api pos s0 (Suc i)"
    unfolding check_record_def ..
  have m': "sampler_iteration api (sample_next api pos ?s) mod 100 = 0"
    unfolding nxt it by (rule m)
  show ?thesis
  proof (cases "check_converged api pos s0 conv_F conv_perc (Suc i)")
    case True
    then have "converged (get_autocorr_time api (sample_next api pos ?s)) (baseline api pos s0 i)
        conv_F conv_perc (sampler_iteration api (sample_next api pos ?s))"
      unfolding nxt it tau cc .
    from sample_loop_break [OF m' this, of n ac] True show ?thesis
      unfolding nxt it tau rec by simp
  next
    case False
    then have "\<not> converged (get_autocorr_time api (sample_next api pos ?s)) (baseline api pos s0 i)
        conv_F conv_perc (sampler_iteration api (sample_next api pos ?s))"
      unfolding nxt it tau cc .
    from sample_loop_continue [OF m' this, of n ac] False show ?thesis
      unfolding nxt it tau rec baseline_check [OF m] by simp
  qed
qed

lemma stops_at_bounds:
  "i \<le> stops_at api pos s0 conv_F conv_perc n i \<and>
   stops_at api pos s0 conv_F conv_perc n i \<le> i + n"
proof (induction n arbitrary: i)
  case 0
  show ?case by simp
next
  case (Suc n)
  from Suc [of "Suc i"] show ?case by auto
qed

lemma stops_at_early:
  "stops_at api pos s0 conv_F conv_perc n i < i + n \<Longrightarrow>
   stops_at api pos s0 conv_F conv_perc n i mod 100 = 0 \<and>
   i < stops_at api pos s0 conv_F conv_perc n i \<and>
   check_converged api pos s0 conv_F conv_perc (stops_at api pos s0 conv_F conv_perc n i)"
proof (induction n arbitrary: i)
  case 0
  then show ?case by simp
next
  case (Suc n)
  show ?case
  proof (cases "Suc i mod 100 = 0 \<and> check_converged api pos s0 conv_F conv_perc (Suc i)")
    case True
    then show ?thesis by simp
  next
    case False
    then have eq: "stops_at api pos s0 conv_F conv_perc (Suc n) i
        = stops_at api pos s0 conv_F conv_perc n (Suc i)"
      by auto
    with Suc.prems have "stops_at api pos s0 conv_F conv_perc n (Suc i) < Suc i + n"
      by simp
    from Suc.IH [OF this] show ?thesis
      unfolding eq by auto
  qed
qed


lemma checks_single:
  assumes "Suc i mod 100 = 0"
  shows "[j \<leftarrow> [Suc i..<Suc (Suc i)]. j mod 100 = 0] = [Suc i]"
proof -
  have "[Suc i..<Suc (Suc i)] = [Suc i]" by simp
  then show ?thesis using assms by simp
qed

lemma sample_loop_eq:
  assumes cp: "counts_passes api pos s0"
  shows "sample_loop api pos conv_F conv_perc n (after_passes api pos s0 i)
            (baseline api pos s0 i) ac
         = (after_passes api pos s0 (stops_at api pos s0 conv_F conv_perc n i),
            ac @ map (check_record api pos s0)
                   [j \<leftarrow> [Suc i..<Suc (stops_at api pos s0 conv_F conv_perc n i)]. j mod 100 = 0])"
proof (induction n arbitrary: i ac)
  case 0
  have "[j \<leftarrow> [Suc i..<Suc i]. j mod 100 = 0] = []" by simp
  then show ?case by simp
next
  case (Suc n)
  let ?k = "stops_at api pos s0 conv_F conv_perc n (Suc i)"
  have le: "Suc i \<le> ?k"
    using stops_at_bounds [of "Suc i" api pos s0 conv_F conv_perc n] by simp
  show ?case
  proof (cases "Suc i mod 100 = 0")
    case False
    then have eq: "stops_at api pos s0 conv_F conv_perc (Suc n) i = ?k" by simp
    show ?thesis
      unfolding eq loop_step_skip [OF cp False] Suc.IH checks_from_skip [OF False le] ..
  next
    case True
    show ?thesis
    proof (cases "check_converged api pos s0 conv_F conv_perc (Suc i)")
      case conv: True
      with True have eq: "stops_at api pos s0 conv_F conv_perc (Suc n) i = Suc i" by simp
      show ?thesis
        unfolding eq loop_step_check [OF cp True] checks_single [OF True] using conv by simp
    next
      case nconv: False
      then have eq: "stops_at api pos s0 conv_F conv_perc (Suc n) i = ?k" by simp
      show ?thesis
        unfolding eq loop_step_check [OF cp True] Suc.IH checks_from_check [OF True le]
        using nconv by simp
    qed
  qed
qed

subsection \<open>The convergence test in every dimension\<close>

lemma converged_scalar:
  "converged tau (Scalar_tau a) conv_F conv_perc it \<longleftrightarrow>
     (\<forall>d<length tau. fless (fmul (tau ! d) (Fin conv_F)) (Fin (real it))) \<and>
     (\<forall>d<length tau. fless (fdiv (fabs (fsub a (tau ! d))) (tau ! d)) (Fin conv_perc))"
  by (simp add: converged_def list_all_length)

lemma converged_array:
  "length old = length tau \<Longrightarrow>
   converged tau (Array_tau old) conv_F conv_perc it \<longleftrightarrow>
     (\<forall>d<length tau. fless (fmul (tau ! d) (Fin conv_F)) (Fin (real it))) \<and>
     (\<forall>d<length tau. fless (fdiv (fabs (fsub (old ! d) (tau ! d))) (tau ! d)) (Fin conv_perc))"
  by (simp add: converged_def list_all_length)

lemma check_pred:
  assumes "0 < (j :: nat)" and "j mod 100 = 0"
  shows "j = 100 \<or> (100 \<le> j - 1 \<and> (j - 1) - (j - 1) mod 100 = j - 100)"
proof -
  from assms(2) have "100 dvd j" by (simp add: dvd_eq_mod_eq_0)
  then obtain q where q: "j = 100 * q" by (rule dvdE)
  with assms(1) have "0 < q" by simp
  then obtain r where r: "q = Suc r" by (cases q) auto
  show ?thesis
  proof (cases r)
    case 0
    with q r show ?thesis by simp
  next
    case (Suc p)
    have j1: "j - 1 = 100 * r + 99" using q r by simp
    have "(j - 1) mod 100 = 99" unfolding j1 by simp
    moreover have "j - 100 = 100 * r" using q r by simp
    ultimately have "(j - 1) - (j - 1) mod 100 = j - 100" using j1 by simp
    moreover have "100 \<le> j - 1" using j1 Suc by simp
    ultimately show ?thesis by simp
  qed
qed

lemma baseline_at_check:
  assumes "0 < j" and "j mod 100 = 0"
  shows "baseline api pos s0 (j - 1)
           = (if j = 100 then Scalar_tau PInf else Array_tau (tau_at api pos s0 (j - 100)))"
proof (cases "j = 100")
  case True
  then show ?thesis by (simp add: baseline_def)
next
  case False
  with check_pred [OF assms] have "100 \<le> j - 1" "(j - 1) - (j - 1) mod 100 = j - 100"
    by auto
  then show ?thesis using False by (simp add: baseline_def)
qed

lemma check_converged_per_dimension:
  assumes tpd: "tau_per_dimension api pos s0 ndim" and "0 < j" and "j mod 100 = 0"
  shows "check_converged api pos s0 conv_F conv_perc j \<longleftrightarrow>
     (\<forall>d<ndim. fless (fmul (tau_at api pos s0 j ! d) (Fin conv_F)) (Fin (real j))) \<and>
     (\<forall>d<ndim. fless (fdiv (fabs (fsub (if j = 100 then PInf else tau_at api pos s0 (j - 100) ! d)
                                        (tau_at api pos s0 j ! d)))
                          (tau_at api pos s0 j ! d)) (Fin conv_perc))"
proof -
  have len: "\<And>i. length (tau_at api pos s0 i) = ndim"
    using tpd by (simp add: tau_per_dimension_def)
  show ?thesis
  proof (cases "j = 100")
    case True
    then show ?thesis
      unfolding check_converged_def baseline_at_check [OF assms(2,3)]
      by (simp add: converged_scalar len)
  next
    case False
    then show ?thesis
      unfolding check_converged_def baseline_at_check [OF assms(2,3)]
      by (simp add: converged_array len)
  qed
qed

lemma relative_change_from_infinity:
  "fless (fdiv (fabs (fsub PInf x)) x) (Fin c) \<longleftrightarrow> (\<exists>a<0. x = Fin a)"
  by (cases x) (simp_all add: fsub_def)

subsection \<open>The counting sampler\<close>

lemma counting_after_passes:
  "after_passes counting_emcee pos s i = s\<lparr>cs_passes := cs_passes s + i\<rparr>"
  by (induction i) (simp_all add: after_passes_def counting_emcee_def)

lemma counting_counts_passes: "counts_passes counting_emcee pos (fresh_counting w d t)"
  by (simp add: counts_passes_def counting_after_passes)
     (simp add: counting_emcee_def fresh_counting_def)

lemma counting_tau_at: "tau_at counting_emcee pos (fresh_counting w d t) i = replicate d t"
  by (simp add: tau_at_def counting_after_passes)
     (simp add: counting_emcee_def fresh_counting_def)

lemma counting_tau_per_dimension:
  "tau_per_dimension counting_emcee pos (fresh_counting w d t) d"
  by (simp add: tau_per_dimension_def counting_tau_at)

subsection \<open>Checks and early termination\<close>

lemma sample_loop_from_start:
  assumes "counts_passes api pos s0"
  shows "sample_loop api pos conv_F conv_perc nsamps s0 (Scalar_tau PInf) []
         = (after_passes api pos s0 (stops_at api pos s0 conv_F conv_perc nsamps 0),
            map (check_record api pos s0)
              [j \<leftarrow> [1..<Suc (stops_at api pos s0 conv_F conv_perc nsamps 0)]. j mod 100 = 0])"
proof -
  have a: "after_passes api pos s0 0 = s0" by (simp add: after_passes_def)
  have b: "baseline api pos s0 0 = Scalar_tau PInf" by (simp add: baseline_def)
  from sample_loop_eq [OF assms, of conv_F conv_perc nsamps 0 "[]"] show ?thesis
    unfolding a b by simp
qed

lemma iterations_run:
  assumes "counts_passes api pos s0"
  shows "sampler_iteration api (fst (sample_loop api pos conv_F conv_perc nsamps s0 (Scalar_tau PInf) []))
         = stops_at api pos s0 conv_F conv_perc nsamps 0"
  unfolding sample_loop_from_start [OF assms] using assms
  by (simp add: iteration_after_passes)

text \<open>
  C6: when \<^verbatim>\<open>sampler.iteration\<close> counts the passes of the generator, the checks made by
  a run that ends after \<open>k\<close> passes are those after the passes \<open>j\<close> with \<open>0 < j \<le> k\<close>
  that are multiples of 100, in this order, no other: \<^verbatim>\<open>autocorr\<close> holds one record
  \<open>(j, mean tau)\<close> for each of them, and \<open>k\<close> is at most \<^verbatim>\<open>nsamps\<close>.
\<close>

theorem checks_at_multiples_of_100:
  assumes "counts_passes api pos s0" and "tau_per_dimension api pos s0 ndim"
    and "run = sample_loop api pos conv_F conv_perc nsamps s0 (Scalar_tau PInf) []"
    and "k = sampler_iteration api (fst run)"
  shows "k \<le> nsamps \<and> fst run = after_passes api pos s0 k \<and>
         snd run = map (check_record api pos s0) [j \<leftarrow> [1..<Suc k]. j mod 100 = 0] \<and>
         (\<forall>j. j \<in> set (map fst (snd run)) \<longleftrightarrow> 0 < j \<and> j \<le> k \<and> j mod 100 = 0)"
proof -
  have k: "k = stops_at api pos s0 conv_F conv_perc nsamps 0"
    unfolding assms(4) assms(3) using assms(1) by (rule iterations_run)
  have run: "run = (after_passes api pos s0 k,
      map (check_record api pos s0) [j \<leftarrow> [1..<Suc k]. j mod 100 = 0])"
    unfolding k assms(3) using assms(1) by (rule sample_loop_from_start)
  have le: "k \<le> nsamps"
    unfolding k using stops_at_bounds [of 0 api pos s0 conv_F conv_perc nsamps] by simp
  have fsts: "map fst (snd run) = [j \<leftarrow> [1..<Suc k]. j mod 100 = 0]"
    unfolding run by (simp add: comp_def check_record_def)
  have mem: "\<forall>j. j \<in> set (map fst (snd run)) \<longleftrightarrow> 0 < j \<and> j \<le> k \<and> j mod 100 = 0"
    unfolding fsts by auto
  show ?thesis
  proof (intro conjI)
    show "k \<le> nsamps" by (rule le)
    show "fst run = after_passes api pos s0 k" unfolding run by simp
    show "snd run = map (check_record api pos s0) [j \<leftarrow> [1..<Suc k]. j mod 100 = 0]"
      unfolding run by simp
    show "\<forall>j. j \<in> set (map fst (snd run)) \<longleftrightarrow> 0 < j \<and> j \<le> k \<and> j mod 100 = 0"
      by (rule mem)
  qed
qed


lemma counting_run_250:
  "sample_loop counting_emcee [] 50 (1 / 100) 250 (fresh_counting 2 1 (Fin 1)) (Scalar_tau PInf) []
     = (\<lparr>cs_walkers = 2, cs_ndim = 1, cs_passes = 200, cs_tau = Fin 1\<rparr>,
        [(100, Fin 1), (200, Fin 1)])"
  by code_simp

lemma counting_iteration: "sampler_iteration counting_emcee s = cs_passes s"
  by (simp add: counting_emcee_def)

theorem checks_at_multiples_of_100_witness:
  "counts_passes counting_emcee [] (fresh_counting 2 1 (Fin 1)) \<and>
   tau_per_dimension counting_emcee [] (fresh_counting 2 1 (Fin 1)) 1 \<and>
   sampler_iteration counting_emcee (fst (sample_loop counting_emcee [] 50 (1 / 100) 250
       (fresh_counting 2 1 (Fin 1)) (Scalar_tau PInf) [])) = 200 \<and>
   map fst (snd (sample_loop counting_emcee [] 50 (1 / 100) 250
       (fresh_counting 2 1 (Fin 1)) (Scalar_tau PInf) [])) = [100, 200] \<and>
   (100 \<in> set (map fst (snd (sample_loop counting_emcee [] 50 (1 / 100) 250
       (fresh_counting 2 1 (Fin 1)) (Scalar_tau PInf) [])))) \<and>
   (150 \<notin> set (map fst (snd (sample_loop counting_emcee [] 50 (1 / 100) 250
       (fresh_counting 2 1 (Fin 1)) (Scalar_tau PInf) []))))"
proof -
  let ?s0 = "fresh_counting 2 1 (Fin 1)"
  let ?run = "sample_loop counting_emcee [] 50 (1 / 100) 250 ?s0 (Scalar_tau PInf) []"
  have cp: "counts_passes counting_emcee [] ?s0" by (rule counting_counts_passes)
  have tpd: "tau_per_dimension counting_emcee [] ?s0 1" by (rule counting_tau_per_dimension)
  have k: "sampler_iteration counting_emcee (fst ?run) = 200"
    unfolding counting_run_250 by (simp add: counting_iteration)
  note t = checks_at_multiples_of_100 [OF cp tpd refl refl, of 50 "1 / 100" 250]
  from t have mem: "\<forall>j. j \<in> set (map fst (snd ?run))
      \<longleftrightarrow> 0 < j \<and> j \<le> sampler_iteration counting_emcee (fst ?run) \<and> j mod 100 = 0"
    by (elim conjE)
  from mem have a: "100 \<in> set (map fst (snd ?run))" unfolding k by simp
  from mem have b: "150 \<notin> set (map fst (snd ?run))" unfolding k by simp
  have c: "map fst (snd ?run) = [100, 200]" unfolding counting_run_250 by simp
  from cp tpd k a b c show ?thesis by (intro conjI)
qed


subsection \<open>The first check\<close>

lemma first_multiple:
  assumes "0 < (k :: nat)" and "k mod 100 = 0" and "k < 200"
  shows "k = 100"
proof -
  from assms(2) have "100 dvd k" by (simp add: dvd_eq_mod_eq_0)
  then obtain q where q: "k = 100 * q" by (rule dvdE)
  with assms(1) have "0 < q" by simp
  moreover from q assms(3) have "q < 2" by simp
  ultimately have "q = 1" by simp
  with q show ?thesis by simp
qed

text \<open>
  C9 (amended): \<^verbatim>\<open>old_tau\<close> is \<^verbatim>\<open>np.inf\<close> at the first check, after pass 100. If the
  estimate of some dimension is then positive, infinite or not a number, the relative
  change of that dimension is not below \<^verbatim>\<open>conv_perc\<close>, the test fails, and the run does not
  end after pass 100 unless the budget ends there; with \<^verbatim>\<open>nsamps >= 200\<close> at least 200
  passes are made.
\<close>

theorem no_break_at_first_check:
  assumes "counts_passes api pos s0" and "tau_per_dimension api pos s0 ndim"
    and "d < ndim" and "\<forall>a. tau_at api pos s0 100 ! d = Fin a \<longrightarrow> 0 < a"
    and "k = sampler_iteration api
               (fst (sample_loop api pos conv_F conv_perc nsamps s0 (Scalar_tau PInf) []))"
  shows "\<not> fless (fdiv (fabs (fsub PInf (tau_at api pos s0 100 ! d))) (tau_at api pos s0 100 ! d))
             (Fin conv_perc) \<and>
         \<not> check_converged api pos s0 conv_F conv_perc 100 \<and>
         (100 < nsamps \<longrightarrow> k \<noteq> 100) \<and>
         (200 \<le> nsamps \<longrightarrow> 200 \<le> k)"
proof -
  have k: "k = stops_at api pos s0 conv_F conv_perc nsamps 0"
    unfolding assms(5) using assms(1) by (rule iterations_run)
  have rel: "\<not> fless (fdiv (fabs (fsub PInf (tau_at api pos s0 100 ! d)))
      (tau_at api pos s0 100 ! d)) (Fin conv_perc)"
    unfolding relative_change_from_infinity using assms(4) by auto
  have pos100: "0 < (100 :: nat)" and mod100: "(100 :: nat) mod 100 = 0" by simp_all
  have nc: "\<not> check_converged api pos s0 conv_F conv_perc 100"
  proof
    assume "check_converged api pos s0 conv_F conv_perc 100"
    then have "\<forall>d<ndim. fless
        (fdiv (fabs (fsub (if (100 :: nat) = 100 then PInf else tau_at api pos s0 (100 - 100) ! d)
                          (tau_at api pos s0 100 ! d)))
              (tau_at api pos s0 100 ! d))
        (Fin conv_perc)"
      unfolding check_converged_per_dimension [OF assms(2) pos100 mod100] by (rule conjunct2)
    with assms(3) have "fless (fdiv (fabs (fsub PInf (tau_at api pos s0 100 ! d)))
        (tau_at api pos s0 100 ! d)) (Fin conv_perc)"
      by simp
    with rel show False by simp
  qed
  have early: "k mod 100 = 0 \<and> 0 < k \<and> check_converged api pos s0 conv_F conv_perc k"
    if "k < nsamps"
  proof -
    from that have "stops_at api pos s0 conv_F conv_perc nsamps 0 < 0 + nsamps"
      unfolding k by simp
    from stops_at_early [OF this] show ?thesis unfolding k by simp
  qed
  have a: "100 < nsamps \<longrightarrow> k \<noteq> 100"
  proof (intro impI notI)
    assume "100 < nsamps" and "k = 100"
    then have "k < nsamps" by simp
    from early [OF this] \<open>k = 100\<close> nc show False by simp
  qed
  have b: "200 \<le> nsamps \<longrightarrow> 200 \<le> k"
  proof (intro impI)
    assume n: "200 \<le> nsamps"
    show "200 \<le> k"
    proof (rule ccontr)
      assume "\<not> 200 \<le> k"
      then have lt: "k < 200" by simp
      with n have "k < nsamps" by simp
      from early [OF this] have e: "k mod 100 = 0" "0 < k"
        "check_converged api pos s0 conv_F conv_perc k" by simp_all
      from first_multiple [OF e(2) e(1) lt] e(3) nc show False by simp
    qed
  qed
  from rel nc a b show ?thesis by (intro conjI)
qed

text \<open>
  C9, as stated, fails when the estimates of the first check are negative in every
  dimension: \<open>|inf - tau| / tau\<close> is then \<open>-inf\<close>, which is below any \<^verbatim>\<open>conv_perc\<close>, and
  \<open>tau * conv_F\<close> is below the iteration. With the estimate \<open>-1\<close> and a budget of 200
  passes the loop is left after pass 100.
\<close>

theorem break_at_first_check_counterexample:
  "sampled counting_emcee (Fin (- 1)) parabola [0] [1 / 1000] 2 200 50 (1 / 100) (\<lambda>i. [0])
     = (\<lparr>cs_walkers = 2, cs_ndim = 1, cs_passes = 100, cs_tau = Fin (- 1)\<rparr>,
        [(100, Fin (- 1))])"
  by code_simp

theorem no_break_at_first_check_witness:
  "counts_passes counting_emcee [] (fresh_counting 2 1 (Fin 1)) \<and>
   tau_per_dimension counting_emcee [] (fresh_counting 2 1 (Fin 1)) 1 \<and>
   (0 :: nat) < 1 \<and>
   tau_at counting_emcee [] (fresh_counting 2 1 (Fin 1)) 100 ! 0 = Fin 1 \<and>
   \<not> check_converged counting_emcee [] (fresh_counting 2 1 (Fin 1)) 50 (1 / 100) 100 \<and>
   (200 :: nat) \<le> 250 \<and>
   200 \<le> sampler_iteration counting_emcee (fst (sample_loop counting_emcee [] 50 (1 / 100) 250
       (fresh_counting 2 1 (Fin 1)) (Scalar_tau PInf) []))"
proof -
  let ?s0 = "fresh_counting 2 1 (Fin 1)"
  have cp: "counts_passes counting_emcee [] ?s0" by (rule counting_counts_passes)
  have tpd: "tau_per_dimension counting_emcee [] ?s0 1" by (rule counting_tau_per_dimension)
  have d: "(0 :: nat) < 1" by simp
  have tau: "tau_at counting_emcee [] ?s0 100 ! 0 = Fin 1"
    by (simp add: counting_tau_at)
  have fin: "\<forall>a. tau_at counting_emcee [] ?s0 100 ! 0 = Fin a \<longrightarrow> 0 < a"
    unfolding tau by simp
  note t = no_break_at_first_check [OF cp tpd d fin refl, where conv_F = 50 and conv_perc = "1 / 100"
      and nsamps = 250]
  from t have nc: "\<not> check_converged counting_emcee [] ?s0 50 (1 / 100) 100"
    by (elim conjE)
  from t have "(200 :: nat) \<le> 250 \<longrightarrow> 200 \<le> sampler_iteration counting_emcee
      (fst (sample_loop counting_emcee [] 50 (1 / 100) 250 ?s0 (Scalar_tau PInf) []))"
    by (elim conjE)
  then have k: "200 \<le> sampler_iteration counting_emcee
      (fst (sample_loop counting_emcee [] 50 (1 / 100) 250 ?s0 (Scalar_tau PInf) []))"
    by simp
  from cp tpd d tau nc k show ?thesis by simp
qed

subsection \<open>Burn-in and the shape of the pool\<close>

lemma slice_from_nonneg: "0 \<le> n \<Longrightarrow> slice_from n xs = drop (nat n) xs"
  by (simp add: slice_from_def Let_def min_def)

lemma take_drop_concat_row:
  "\<forall>r \<in> set rs. length r = d \<Longrightarrow> i < length rs \<Longrightarrow>
   take d (drop (i * d) (concat rs)) = rs ! i"
proof (induction rs arbitrary: i)
  case Nil
  then show ?case by simp
next
  case (Cons r rs)
  then have r: "length r = d" by simp
  show ?case
  proof (cases i)
    case 0
    with r show ?thesis by simp
  next
    case (Suc m)
    with Cons.prems have "m < length rs" by simp
    moreover from Cons.prems have "\<forall>r \<in> set rs. length r = d" by simp
    ultimately have "take d (drop (m * d) (concat rs)) = rs ! m" by (rule Cons.IH [rotated])
    with Suc r show ?thesis by simp
  qed
qed

lemma length_concat_rows:
  "\<forall>r \<in> set rs. length r = d \<Longrightarrow> length (concat rs) = length rs * d"
  by (induction rs) simp_all

lemma reshape_rows_concat:
  assumes "\<forall>r \<in> set rs. length r = d" and "0 < d"
  shows "reshape_rows (concat rs) d = Inr \<lparr>nrows = length rs, ncols = d, rows = rs\<rparr>"
proof -
  have len: "length (concat rs) = length rs * d"
    using assms(1) by (rule length_concat_rows)
  have "map (\<lambda>r. take d (drop (r * d) (concat rs))) [0..<length rs] = rs"
    by (rule nth_equalityI) (simp_all add: take_drop_concat_row [OF assms(1)])
  with len assms(2) show ?thesis by (simp add: reshape_rows_def)
qed

lemma length_concat_histories:
  "\<forall>h \<in> set chain. length h = m \<Longrightarrow> length (concat chain) = length chain * m"
  by (induction chain) simp_all

lemma burn_and_flatten_shape:
  assumes sh: "has_shape chain w k d" and "0 < d" and "0 \<le> nburn"
  shows "burn_and_flatten chain nburn d
         = Inr \<lparr>nrows = w * (k - nat nburn), ncols = d,
                rows = concat (map (drop (nat nburn)) chain)\<rparr>"
proof -
  let ?rows = "concat (map (drop (nat nburn)) chain)"
  have sl: "map (slice_from nburn) chain = map (drop (nat nburn)) chain"
    using assms(3) by (simp add: slice_from_nonneg)
  have rows: "\<forall>r \<in> set ?rows. length r = d"
    using sh by (auto simp: has_shape_def dest: in_set_dropD)
  have "\<forall>h \<in> set (map (drop (nat nburn)) chain). length h = k - nat nburn"
    using sh by (auto simp: has_shape_def)
  then have "length ?rows = length (map (drop (nat nburn)) chain) * (k - nat nburn)"
    by (rule length_concat_histories)
  with sh have n: "length ?rows = w * (k - nat nburn)"
    by (simp add: has_shape_def)
  show ?thesis
    unfolding burn_and_flatten_def sl reshape_rows_concat [OF rows assms(2)] n ..
qed

lemma run_emcee_result:
  assumes "displacement (length pos0) dpos = Inr dp"
    and "sampled api kwargs func pos0 dp nwalkers nsamps conv_F conv_perc randn = (sampler, ac)"
    and "sampler_chain api sampler = Inr chain"
    and "burn_and_flatten chain nburn (length pos0) = Inr samples"
  shows "run_emcee api kwargs func pos0 dpos nwalkers nsamps nburn conv_F conv_perc randn
         = Inr \<lparr>chains = samples, autocorr = ac\<rparr>"
  using assms by (simp add: run_emcee_def Let_def)

lemma run_emcee_chain_error:
  assumes "displacement (length pos0) dpos = Inr dp"
    and "sampled api kwargs func pos0 dp nwalkers nsamps conv_F conv_perc randn = (sampler, ac)"
    and "sampler_chain api sampler = Inl e"
  shows "run_emcee api kwargs func pos0 dpos nwalkers nsamps nburn conv_F conv_perc randn = Inl e"
  using assms by (simp add: run_emcee_def Let_def)

text \<open>
  C4: when the run ends after \<open>k\<close> passes, the chain of the sampler has the shape
  \<open>(nwalkers, k, ndim)\<close> and \<open>0 \<le> nburn < k\<close>, \<^verbatim>\<open>run_emcee\<close> returns the histories of
  the walkers without their first \<open>nburn\<close> entries, one walker after the other, as an
  array of shape \<open>(nwalkers * (k - nburn), ndim)\<close>. \<open>nburn\<close> counts iterations, so it is
  not negative; there is at least one parameter.
\<close>

theorem burn_in_discarded:
  assumes "displacement (length pos0) dpos = Inr dp"
    and "sampled api kwargs func pos0 dp nwalkers nsamps conv_F conv_perc randn = (sampler, ac)"
    and "k = sampler_iteration api sampler"
    and "sampler_chain api sampler = Inr chain"
    and "has_shape chain nwalkers k (length pos0)"
    and "pos0 \<noteq> []" and "0 \<le> nburn" and "nburn < int k"
  shows "run_emcee api kwargs func pos0 dpos nwalkers nsamps nburn conv_F conv_perc randn
         = Inr \<lparr>chains = \<lparr>nrows = nwalkers * (k - nat nburn), ncols = length pos0,
                           rows = concat (map (drop (nat nburn)) chain)\<rparr>,
                autocorr = ac\<rparr>"
proof -
  from assms(6) have d: "0 < length pos0" by simp
  from assms(1,2,4) burn_and_flatten_shape [OF assms(5) d assms(7)] show ?thesis
    by (rule run_emcee_result)
qed

text \<open>
  C10, as stated, fails for a run of no iteration (\<^verbatim>\<open>nsamps = 0\<close>, so \<open>k = 0 \<le> nburn\<close>):
  the sampler has stored nothing, reading \<^verbatim>\<open>sampler.chain\<close> raises, and \<^verbatim>\<open>run_emcee\<close>
  raises with it instead of returning an empty pool.
\<close>

theorem run_of_no_iteration_counterexample:
  "int 0 \<le> 50 \<and>
   sampled counting_emcee (Fin 1) parabola [0] [1 / 1000] 2 0 50 (1 / 100) (\<lambda>i. [0])
     = (\<lparr>cs_walkers = 2, cs_ndim = 1, cs_passes = 0, cs_tau = Fin 1\<rparr>, []) \<and>
   run_emcee counting_emcee (Fin 1) parabola [0] None 2 0 50 50 (1 / 100) (\<lambda>i. [0])
     = Inl AttributeError"
proof -
  have s: "sampled counting_emcee (Fin 1) parabola [0] [1 / 1000] 2 0 50 (1 / 100) (\<lambda>i. [0])
     = (\<lparr>cs_walkers = 2, cs_ndim = 1, cs_passes = 0, cs_tau = Fin 1\<rparr>, [])"
    by (simp add: sampled_def counting_emcee_def)
  have dp: "displacement (length [0 :: real]) None = Inr [1 / 1000]"
    by (simp add: displacement_None)
  have c: "sampler_chain counting_emcee
      \<lparr>cs_walkers = 2, cs_ndim = 1, cs_passes = 0, cs_tau = Fin 1\<rparr> = Inl AttributeError"
    by (simp add: counting_emcee_def)
  from run_emcee_chain_error [OF dp s c] s show ?thesis by simp
qed

text \<open>
  C10 (amended): when the run ends after \<open>k\<close> passes with \<open>1 \<le> k \<le> nburn\<close>, the slice
  \<^verbatim>\<open>[:, nburn:, :]\<close> is empty and the reshape succeeds: \<^verbatim>\<open>run_emcee\<close> raises nothing and
  returns a pool of shape \<open>(0, ndim)\<close>, that is \<open>nwalkers * max (k - nburn) 0\<close> rows.
\<close>

theorem short_run_gives_empty_pool:
  assumes "displacement (length pos0) dpos = Inr dp"
    and "sampled api kwargs func pos0 dp nwalkers nsamps conv_F conv_perc randn = (sampler, ac)"
    and "k = sampler_iteration api sampler"
    and "stores_chain api sampler nwalkers (length pos0)"
    and "pos0 \<noteq> []" and "1 \<le> k" and "int k \<le> nburn"
  shows "run_emcee api kwargs func pos0 dpos nwalkers nsamps nburn conv_F conv_perc randn
         = Inr \<lparr>chains = \<lparr>nrows = 0, ncols = length pos0, rows = []\<rparr>, autocorr = ac\<rparr> \<and>
         nwalkers * nat (max (int k - nburn) 0) = 0"
proof -
  from assms(3,4,6) obtain chain where ch: "sampler_chain api sampler = Inr chain"
    and sh: "has_shape chain nwalkers k (length pos0)"
    by (auto simp: stores_chain_def split: sum.splits)
  from assms(5) have d: "0 < length pos0" by simp
  from assms(7) have nb: "0 \<le> nburn" by simp
  from assms(7) have z: "k - nat nburn = 0" by simp
  have "\<forall>h \<in> set chain. drop (nat nburn) h = []"
    using sh assms(7) by (auto simp: has_shape_def)
  then have "map (drop (nat nburn)) chain = map (\<lambda>h. []) chain"
    by simp
  then have e: "concat (map (drop (nat nburn)) chain) = []"
    by simp
  have "burn_and_flatten chain nburn (length pos0)
      = Inr \<lparr>nrows = 0, ncols = length pos0, rows = []\<rparr>"
    unfolding burn_and_flatten_shape [OF sh d nb] z e by simp
  with assms(1,2) ch
  have "run_emcee api kwargs func pos0 dpos nwalkers nsamps nburn conv_F conv_perc randn
      = Inr \<lparr>chains = \<lparr>nrows = 0, ncols = length pos0, rows = []\<rparr>, autocorr = ac\<rparr>"
    by (rule run_emcee_result)
  moreover from assms(7) have "nwalkers * nat (max (int k - nburn) 0) = 0" by simp
  ultimately show ?thesis by simp
qed

lemma counting_sampled_3:
  "sampled counting_emcee (Fin 1) parabola [0] [1 / 1000] 2 3 50 (1 / 100) (\<lambda>i. [0])
     = (\<lparr>cs_walkers = 2, cs_ndim = 1, cs_passes = 3, cs_tau = Fin 1\<rparr>, [])"
  by code_simp

lemma counting_chain_3:
  "sampler_chain counting_emcee \<lparr>cs_walkers = 2, cs_ndim = 1, cs_passes = 3, cs_tau = Fin 1\<rparr>
     = Inr [[[1], [2], [3]], [[1], [2], [3]]]"
  by code_simp

theorem burn_in_discarded_witness:
  "displacement (length [0 :: real]) None = Inr [1 / 1000] \<and>
   sampler_chain counting_emcee \<lparr>cs_walkers = 2, cs_ndim = 1, cs_passes = 3, cs_tau = Fin 1\<rparr>
     = Inr [[[1], [2], [3]], [[1], [2], [3]]] \<and>
   has_shape [[[1], [2], [3]], [[1], [2], [3]]] 2 3 (length [0 :: real]) \<and>
   [0 :: real] \<noteq> [] \<and> (0 :: int) \<le> 1 \<and> (1 :: int) < int 3 \<and>
   run_emcee counting_emcee (Fin 1) parabola [0] None 2 3 1 50 (1 / 100) (\<lambda>i. [0])
     = Inr \<lparr>chains = \<lparr>nrows = 4, ncols = 1, rows = [[2], [3], [2], [3]]\<rparr>, autocorr = []\<rparr>"
proof -
  let ?s = "\<lparr>cs_walkers = 2, cs_ndim = 1, cs_passes = 3, cs_tau = Fin 1\<rparr>"
  have dp: "displacement (length [0 :: real]) None = Inr [1 / 1000]"
    by (simp add: displacement_None)
  have k: "3 = sampler_iteration counting_emcee ?s"
    by (simp add: counting_iteration)
  have sh: "has_shape [[[1], [2], [3]], [[1], [2], [3]]] 2 3 (length [0 :: real])"
    by (simp add: has_shape_def)
  have ne: "[0 :: real] \<noteq> []" and nb: "(0 :: int) \<le> 1" and lt: "(1 :: int) < int 3"
    by simp_all
  from burn_in_discarded [OF dp counting_sampled_3 k counting_chain_3 sh ne nb lt]
  have "run_emcee counting_emcee (Fin 1) parabola [0] None 2 3 1 50 (1 / 100) (\<lambda>i. [0])
     = Inr \<lparr>chains = \<lparr>nrows = 4, ncols = 1, rows = [[2], [3], [2], [3]]\<rparr>, autocorr = []\<rparr>"
    by simp
  with dp sh counting_chain_3 show ?thesis by simp
qed

theorem short_run_gives_empty_pool_witness:
  "displacement (length [0 :: real]) None = Inr [1 / 1000] \<and>
   stores_chain counting_emcee \<lparr>cs_walkers = 2, cs_ndim = 1, cs_passes = 3, cs_tau = Fin 1\<rparr>
     2 (length [0 :: real]) \<and>
   [0 :: real] \<noteq> [] \<and> (1 :: nat) \<le> 3 \<and> int 3 \<le> 5 \<and>
   run_emcee counting_emcee (Fin 1) parabola [0] None 2 3 5 50 (1 / 100) (\<lambda>i. [0])
     = Inr \<lparr>chains = \<lparr>nrows = 0, ncols = 1, rows = []\<rparr>, autocorr = []\<rparr>"
proof -
  let ?s = "\<lparr>cs_walkers = 2, cs_ndim = 1, cs_passes = 3, cs_tau = Fin 1\<rparr>"
  have dp: "displacement (length [0 :: real]) None = Inr [1 / 1000]"
    by (simp add: displacement_None)
  have k: "3 = sampler_iteration counting_emcee ?s"
    by (simp add: counting_iteration)
  have st: "stores_chain counting_emcee ?s 2 (length [0 :: real])"
    unfolding stores_chain_def counting_chain_3
    by (simp add: counting_iteration has_shape_def)
  have ne: "[0 :: real] \<noteq> []" and one: "(1 :: nat) \<le> 3" and le: "int 3 \<le> 5"
    by simp_all
  from short_run_gives_empty_pool [OF dp counting_sampled_3 k st ne one le]
  have "run_emcee counting_emcee (Fin 1) parabola [0] None 2 3 5 50 (1 / 100) (\<lambda>i. [0])
     = Inr \<lparr>chains = \<lparr>nrows = 0, ncols = 1, rows = []\<rparr>, autocorr = []\<rparr>"
    by simp
  with dp st show ?thesis by simp
qed

end
